theory Spec2Isabelle
  imports Complex_Main
begin

section \<open>Region descriptors of schemas/researches.py\<close>

text \<open>
  The embedding follows \<^verbatim>\<open>src/python/src/FastAPI/schemas/researches.py\<close>.
  A \<^verbatim>\<open>ValueError\<close> raised by a validator is the \<open>Inl\<close> branch of a sum, one
  constructor for each \<^verbatim>\<open>raise\<close> of the source; \<open>error_message\<close> gives the text the
  source raises it with.
\<close>

subsection \<open>The arithmetic of Python's float\<close>

text \<open>
  A Python \<^verbatim>\<open>float\<close> is an IEEE 754 double. A finite double is given by the real number
  it denotes; \<^verbatim>\<open>0.0\<close> and \<^verbatim>\<open>-0.0\<close> denote the same number, and no operation of this
  file (subtraction, multiplication, comparison, equality, hashing) tells them apart. The
  result of an operation is a finite double, an infinity or NaN.
\<close>

datatype double = Finite real | PosInf | NegInf | NaN

definition pow2 :: "int \<Rightarrow> real" where
  "pow2 e = (if 0 \<le> e then 2 ^ nat e else 1 / 2 ^ nat (- e))"

text \<open>
  \<open>exponent x\<close> is the greatest \<open>e\<close> from -1022 on with \<open>2 ^ e \<le> \<bar>x\<bar>\<close>, and -1022 for
  a smaller \<open>\<bar>x\<bar>\<close>, the range of the subnormal doubles; it is found by bisection. The
  doubles around \<open>x\<close> are then the multiples of \<open>2 ^ (exponent x - 52)\<close>.
\<close>

fun find_exponent :: "real \<Rightarrow> int \<Rightarrow> int list \<Rightarrow> int" where
  "find_exponent x e [] = e"
| "find_exponent x e (k # ks) =
     (if pow2 (e + k) \<le> x then find_exponent x (e + k) ks else find_exponent x e ks)"

definition exponent :: "real \<Rightarrow> int" where
  "exponent x =
     find_exponent \<bar>x\<bar> (- 1022) [1024, 512, 256, 128, 64, 32, 16, 8, 4, 2, 1]"

text \<open>The nearest integer, the even one of two that are equally near.\<close>

definition round_even :: "real \<Rightarrow> int" where
  "round_even y =
     (let f = \<lfloor>y\<rfloor>; r = y - of_int f
      in if r < 1 / 2 then f else if r > 1 / 2 then f + 1 else if even f then f else f + 1)"

text \<open>
  Rounding of an exact result to a double: to the nearest double, ties to the even one, and
  to an infinity when the rounded magnitude reaches \<open>2 ^ 1024\<close>.
\<close>

definition round_double :: "real \<Rightarrow> double" where
  "round_double x =
     (let q = pow2 (exponent x - 52);
          y = of_int (round_even (\<bar>x\<bar> / q)) * q
      in if pow2 1024 \<le> y then (if 0 < x then PosInf else NegInf)
         else Finite (if x < 0 then - y else y))"

text \<open>A real number is a double when rounding leaves it as it is.\<close>

definition is_double :: "real \<Rightarrow> bool" where
  "is_double x = (round_double x = Finite x)"

text \<open>\<^verbatim>\<open>a - b\<close>, \<^verbatim>\<open>a * b\<close> and \<^verbatim>\<open>a + b\<close> on floats.\<close>

fun double_sub :: "double \<Rightarrow> double \<Rightarrow> double" where
  "double_sub NaN b = NaN"
| "double_sub a NaN = NaN"
| "double_sub (Finite x) (Finite y) = round_double (x - y)"
| "double_sub (Finite x) PosInf = NegInf"
| "double_sub (Finite x) NegInf = PosInf"
| "double_sub PosInf PosInf = NaN"
| "double_sub PosInf b = PosInf"
| "double_sub NegInf NegInf = NaN"
| "double_sub NegInf b = NegInf"

fun double_mul :: "double \<Rightarrow> double \<Rightarrow> double" where
  "double_mul NaN b = NaN"
| "double_mul a NaN = NaN"
| "double_mul (Finite x) (Finite y) = round_double (x * y)"
| "double_mul (Finite x) PosInf = (if x = 0 then NaN else if 0 < x then PosInf else NegInf)"
| "double_mul (Finite x) NegInf = (if x = 0 then NaN else if 0 < x then NegInf else PosInf)"
| "double_mul PosInf (Finite y) = (if y = 0 then NaN else if 0 < y then PosInf else NegInf)"
| "double_mul NegInf (Finite y) = (if y = 0 then NaN else if 0 < y then NegInf else PosInf)"
| "double_mul PosInf PosInf = PosInf"
| "double_mul PosInf NegInf = NegInf"
| "double_mul NegInf PosInf = NegInf"
| "double_mul NegInf NegInf = PosInf"

fun double_add :: "double \<Rightarrow> double \<Rightarrow> double" where
  "double_add NaN b = NaN"
| "double_add a NaN = NaN"
| "double_add (Finite x) (Finite y) = round_double (x + y)"
| "double_add (Finite x) b = b"
| "double_add PosInf NegInf = NaN"
| "double_add PosInf b = PosInf"
| "double_add NegInf PosInf = NaN"
| "double_add NegInf b = NegInf"

text \<open>\<^verbatim>\<open>val == 0\<close> and \<^verbatim>\<open>val > 0\<close>: both are False for NaN.\<close>

fun double_is_zero :: "double \<Rightarrow> bool" where
  "double_is_zero (Finite x) = (x = 0)"
| "double_is_zero PosInf = False"
| "double_is_zero NegInf = False"
| "double_is_zero NaN = False"

fun double_is_positive :: "double \<Rightarrow> bool" where
  "double_is_positive (Finite x) = (0 < x)"
| "double_is_positive PosInf = True"
| "double_is_positive NegInf = False"
| "double_is_positive NaN = False"

subsection \<open>Geometry: the helpers nested in has_self_intersections\<close>

text \<open>
  A coordinate is the real number of a finite double, as the Point of the specification
  has finite coordinates; an infinity or NaN as a coordinate is left out.
  \<^verbatim>\<open>p[0]\<close> is \<open>fst p\<close>, \<^verbatim>\<open>p[1]\<close> is \<open>snd p\<close>.
\<close>

type_synonym point = "real \<times> real"

text \<open>
  The expression bound to \<^verbatim>\<open>val\<close> in orientation: four subtractions, two
  multiplications and a subtraction, each one rounded.
\<close>

definition orientation_val :: "point \<Rightarrow> point \<Rightarrow> point \<Rightarrow> double" where
  "orientation_val p q r =
     double_sub
       (double_mul (double_sub (Finite (snd q)) (Finite (snd p)))
                   (double_sub (Finite (fst r)) (Finite (fst q))))
       (double_mul (double_sub (Finite (fst q)) (Finite (fst p)))
                   (double_sub (Finite (snd r)) (Finite (snd q))))"

text \<open>The result is the source's 0, 1 or 2.\<close>

definition orientation :: "point \<Rightarrow> point \<Rightarrow> point \<Rightarrow> int" where
  "orientation p q r =
     (let val = orientation_val p q r
      in if double_is_zero val then 0 else if double_is_positive val then 1 else 2)"

definition on_segment :: "point \<Rightarrow> point \<Rightarrow> point \<Rightarrow> bool" where
  "on_segment p q r =
     (if fst q \<le> max (fst p) (fst r) \<and> fst q \<ge> min (fst p) (fst r) \<and>
         snd q \<le> max (snd p) (snd r) \<and> snd q \<ge> min (snd p) (snd r)
      then True else False)"

definition do_intersect :: "point \<Rightarrow> point \<Rightarrow> point \<Rightarrow> point \<Rightarrow> bool" where
  "do_intersect p1 q1 p2 q2 =
     (let o1 = orientation p1 q1 p2;
          o2 = orientation p1 q1 q2;
          o3 = orientation p2 q2 p1;
          o4 = orientation p2 q2 q1
      in if o1 \<noteq> o2 \<and> o3 \<noteq> o4 then True
         else if o1 = 0 \<and> on_segment p1 p2 q1 then True
         else if o2 = 0 \<and> on_segment p1 q2 q1 then True
         else if o3 = 0 \<and> on_segment p2 p1 q2 then True
         else if o4 = 0 \<and> on_segment p2 q1 q2 then True
         else False)"

subsection \<open>The scan of has_self_intersections\<close>

text \<open>
  The two \<^verbatim>\<open>for\<close> loops, each as a recursion on its index. \<open>inner_loop cs i j\<close> is the
  rest of \<^verbatim>\<open>for j in range(i + 1, n - 1)\<close> from \<open>j\<close> on, \<open>outer_loop cs i\<close> the rest of
  \<^verbatim>\<open>for i in range(n - 2)\<close> from \<open>i\<close> on; \<^verbatim>\<open>return True\<close> inside the loops ends both.
  The bounds are written \<open>j + 1 < n\<close> and \<open>i + 2 < n\<close>: Python's \<open>n - 1\<close> and \<open>n - 2\<close> are
  integers that may be negative, which gives an empty range, as here. Every index read is
  then below \<open>n\<close>: \<open>i + 1 \<le> j\<close> and \<open>j + 1 < n\<close>.
\<close>

function inner_loop :: "point list \<Rightarrow> nat \<Rightarrow> nat \<Rightarrow> bool" where
  "inner_loop coordinates i j =
     (if j + 1 < length coordinates
      then (if do_intersect (coordinates ! i) (coordinates ! (i + 1))
                            (coordinates ! j) (coordinates ! (j + 1))
            then True
            else inner_loop coordinates i (j + 1))
      else False)"
  by pat_completeness auto
termination
  by (relation "measure (\<lambda>(coordinates, i, j). length coordinates - j)") auto

function outer_loop :: "point list \<Rightarrow> nat \<Rightarrow> bool" where
  "outer_loop coordinates i =
     (if i + 2 < length coordinates
      then (if inner_loop coordinates i (i + 1)
            then True
            else outer_loop coordinates (i + 1))
      else False)"
  by pat_completeness auto
termination
  by (relation "measure (\<lambda>(coordinates, i). length coordinates - i)") auto

definition has_self_intersections :: "point list \<Rightarrow> bool" where
  "has_self_intersections coordinates = outer_loop coordinates 0"

subsection \<open>PolygonDescription: the two validators\<close>

datatype polygon_error =
    TooFewPoints
  | NotClosed
  | DuplicateVertex
  | SelfIntersecting
  | IndexError

fun error_message :: "polygon_error \<Rightarrow> string" where
  "error_message TooFewPoints =
     ''Each polygon must have at least 4 points including the closing point''"
| "error_message NotClosed =
     ''Polygon must be closed, first and last point must be the same''"
| "error_message DuplicateVertex = ''Polygon has repeated points, which is not allowed''"
| "error_message SelfIntersecting = ''Polygon sides intersect with each other''"
| "error_message IndexError = ''list index out of range''"

text \<open>The field validator of \<^verbatim>\<open>coordinates\<close>, run before the model validator.\<close>

definition validate_coordinates :: "point list \<Rightarrow> polygon_error + point list" where
  "validate_coordinates v = (if length v < 4 then Inl TooFewPoints else Inr v)"

text \<open>
  The model validator. \<^verbatim>\<open>coordinates[0]\<close> on an empty list raises IndexError;
  \<^verbatim>\<open>coordinates[:-1]\<close> is \<open>butlast\<close>; \<^verbatim>\<open>len(set(xs))\<close> is the number of different
  members of \<open>xs\<close>, \<open>length (remdups xs)\<close>. Success returns the same values.
\<close>

definition check_polygon_validity :: "point list \<Rightarrow> polygon_error + point list" where
  "check_polygon_validity coordinates =
     (if coordinates = [] then Inl IndexError
      else if hd coordinates \<noteq> last coordinates then Inl NotClosed
      else if length (remdups (butlast coordinates)) \<noteq> length (butlast coordinates)
        then Inl DuplicateVertex
      else if has_self_intersections coordinates then Inl SelfIntersecting
      else Inr coordinates)"

text \<open>
  Building a PolygonDescription from a coordinate list: the field validator, then (only when
  it passed) the model validator. This is the specification's \<open>validate_polygon\<close>.
\<close>

definition validate_polygon :: "point list \<Rightarrow> polygon_error + point list" where
  "validate_polygon v =
     (case validate_coordinates v of
        Inl e \<Rightarrow> Inl e
      | Inr coordinates \<Rightarrow> check_polygon_validity coordinates)"

definition square :: "point list" where
  "square = [(0, 0), (0, 1), (1, 1), (1, 0), (0, 0)]"

subsection \<open>The descriptions\<close>

text \<open>
  The classes TextDescription, PolygonDescription and PointDescription, with their fields in
  the order of the source: the \<^verbatim>\<open>type\<close> string first, \<^verbatim>\<open>text\<close> last. A description
  arrives here already told apart by its class, as the specification's tagged payload is;
  how pydantic picks a member of the \<^verbatim>\<open>Union\<close> for an untyped payload is not part of
  the source and not modelled.
\<close>

datatype description =
    TextDescription string string
  | PolygonDescription string "point list" string
  | PointDescription string point string

text \<open>\<^verbatim>\<open>isinstance(desc, TextDescription)\<close>\<close>

fun is_TextDescription :: "description \<Rightarrow> bool" where
  "is_TextDescription (TextDescription ty tx) = True"
| "is_TextDescription (PolygonDescription ty cs tx) = False"
| "is_TextDescription (PointDescription ty c tx) = False"

text \<open>Building one description: only a polygon has validators.\<close>

fun validate_description :: "description \<Rightarrow> polygon_error + description" where
  "validate_description (TextDescription ty tx) = Inr (TextDescription ty tx)"
| "validate_description (PolygonDescription ty cs tx) =
     (case validate_polygon cs of
        Inl e \<Rightarrow> Inl e
      | Inr coordinates \<Rightarrow> Inr (PolygonDescription ty coordinates tx))"
| "validate_description (PointDescription ty c tx) = Inr (PointDescription ty c tx)"

subsection \<open>CreateResearchRequest\<close>

text \<open>
  What may be supplied for \<^verbatim>\<open>research_comment\<close>: None, a string, or a value that is
  neither (\<open>PyOther\<close>), which the annotation \<^verbatim>\<open>str | None\<close> refuses.
\<close>

datatype raw_value = PyNone | PyStr string | PyOther

datatype request_error =
    CommentNotString
  | DescriptionInvalid nat polygon_error
  | TooManyTextDescriptors

type_synonym date = "nat \<times> nat \<times> nat"

text \<open>The supplied fields; \<^verbatim>\<open>approval_required\<close> may be left out.\<close>

record raw_request =
  raw_research_name :: string
  raw_day_start :: date
  raw_research_comment :: raw_value
  raw_approval_required :: "bool option"
  raw_descriptions :: "description list"

text \<open>The validated model. Its comment has the declared type \<^verbatim>\<open>str | None\<close>.\<close>

record CreateResearchRequest =
  research_name :: string
  day_start :: date
  research_comment :: "string option"
  approval_required :: bool
  descriptions :: "description list"

text \<open>The field validator of \<^verbatim>\<open>research_comment\<close>, run on the supplied value.\<close>

definition validate_comment :: "raw_value \<Rightarrow> raw_value" where
  "validate_comment v = (if v = PyNone then PyStr '''' else v)"

text \<open>The check of the annotation \<^verbatim>\<open>str | None\<close> on what the field validator returned.\<close>

fun str_or_none :: "raw_value \<Rightarrow> request_error + string option" where
  "str_or_none PyNone = Inr None"
| "str_or_none (PyStr s) = Inr (Some s)"
| "str_or_none PyOther = Inl CommentNotString"

text \<open>
  The field \<^verbatim>\<open>descriptions\<close>: every member is built, and the errors of all members are
  collected, each with the index of its member.
\<close>

fun validate_descriptions ::
  "nat \<Rightarrow> description list \<Rightarrow> request_error list \<times> description list" where
  "validate_descriptions i [] = ([], [])"
| "validate_descriptions i (d # ds) =
     (let (errs, vs) = validate_descriptions (i + 1) ds
      in case validate_description d of
           Inl e \<Rightarrow> (DescriptionInvalid i e # errs, vs)
         | Inr v \<Rightarrow> (errs, v # vs))"

text \<open>The model validator of CreateResearchRequest.\<close>

definition check_single_text_description ::
  "CreateResearchRequest \<Rightarrow> request_error + CreateResearchRequest" where
  "check_single_text_description values =
     (let text_descriptions = filter is_TextDescription (descriptions values)
      in if length text_descriptions > 1 then Inl TooManyTextDescriptors else Inr values)"

text \<open>
  Building a CreateResearchRequest: the fields in the order of the class, their errors
  collected; the model validator runs only when no field failed.
\<close>

definition create_research_request ::
  "raw_request \<Rightarrow> request_error list + CreateResearchRequest" where
  "create_research_request raw =
     (let comment = str_or_none (validate_comment (raw_research_comment raw));
          approval = (case raw_approval_required raw of None \<Rightarrow> True | Some b \<Rightarrow> b);
          (errs, vs) = validate_descriptions 0 (raw_descriptions raw)
      in case comment of
           Inl e \<Rightarrow> Inl (e # errs)
         | Inr c \<Rightarrow>
             if errs \<noteq> [] then Inl errs
             else (case check_single_text_description
                          \<lparr>research_name = raw_research_name raw,
                           day_start = raw_day_start raw,
                           research_comment = c,
                           approval_required = approval,
                           descriptions = vs\<rparr> of
                     Inl e \<Rightarrow> Inl [e]
                   | Inr values \<Rightarrow> Inr values))"

subsection \<open>Segments as point sets, exact values, examples\<close>

text \<open>
  The words of the properties, not functions of the source. \<open>cross\<close> is the value of
  the expression \<^verbatim>\<open>val\<close> of orientation in exact arithmetic, and \<open>exact_val p q r\<close> says
  that the doubles compute this value, with no rounding error and no overflow left in it.
  \<open>lies_on x a b\<close>: the point \<open>x\<close> is a point of the closed segment from \<open>a\<close> to \<open>b\<close>.
\<close>

definition cross :: "point \<Rightarrow> point \<Rightarrow> point \<Rightarrow> real" where
  "cross p q r = (snd q - snd p) * (fst r - fst q) - (fst q - fst p) * (snd r - snd q)"

definition exact_val :: "point \<Rightarrow> point \<Rightarrow> point \<Rightarrow> bool" where
  "exact_val p q r = (orientation_val p q r = Finite (cross p q r))"

text \<open>The four values that do_intersect looks at.\<close>

definition exact_vals :: "point \<Rightarrow> point \<Rightarrow> point \<Rightarrow> point \<Rightarrow> bool" where
  "exact_vals p1 q1 p2 q2 =
     (exact_val p1 q1 p2 \<and> exact_val p1 q1 q2 \<and> exact_val p2 q2 p1 \<and> exact_val p2 q2 q1)"

definition lies_on :: "point \<Rightarrow> point \<Rightarrow> point \<Rightarrow> bool" where
  "lies_on x a b =
     (\<exists>t. 0 \<le> t \<and> t \<le> 1 \<and>
          fst x = fst a + t * (fst b - fst a) \<and>
          snd x = snd a + t * (snd b - snd a))"

text \<open>Two segments touch at an endpoint: an endpoint of one is a point of the other.\<close>

definition touch_at_endpoint :: "point \<Rightarrow> point \<Rightarrow> point \<Rightarrow> point \<Rightarrow> bool" where
  "touch_at_endpoint p1 q1 p2 q2 =
     (lies_on p2 p1 q1 \<or> lies_on q2 p1 q1 \<or> lies_on p1 p2 q2 \<or> lies_on q1 p2 q2)"

text \<open>
  Two segments overlap along a common line: their four endpoints are on one line
  \<open>a * x + b * y = c\<close>, and the segments have a point in common.
\<close>

definition on_common_line :: "point \<Rightarrow> point \<Rightarrow> point \<Rightarrow> point \<Rightarrow> bool" where
  "on_common_line p1 q1 p2 q2 =
     (\<exists>a b c. (a, b) \<noteq> (0, 0) \<and>
        a * fst p1 + b * snd p1 = c \<and> a * fst q1 + b * snd q1 = c \<and>
        a * fst p2 + b * snd p2 = c \<and> a * fst q2 + b * snd q2 = (c::real))"

definition overlap_on_line :: "point \<Rightarrow> point \<Rightarrow> point \<Rightarrow> point \<Rightarrow> bool" where
  "overlap_on_line p1 q1 p2 q2 =
     (on_common_line p1 q1 p2 q2 \<and> (\<exists>x. lies_on x p1 q1 \<and> lies_on x p2 q2))"

text \<open>
  The two coordinate differences of the edge from \<open>p\<close> to \<open>q\<close> are finite: the
  subtractions do not overflow.
\<close>

fun is_finite :: "double \<Rightarrow> bool" where
  "is_finite (Finite x) = True"
| "is_finite PosInf = False"
| "is_finite NegInf = False"
| "is_finite NaN = False"

definition edge_in_range :: "point \<Rightarrow> point \<Rightarrow> bool" where
  "edge_in_range p q =
     (is_finite (double_sub (Finite (snd q)) (Finite (snd p))) \<and>
      is_finite (double_sub (Finite (fst q)) (Finite (fst p))))"

text \<open>Moving a point by a vector, in doubles: \<^verbatim>\<open>(p[0] + t[0], p[1] + t[1])\<close>.\<close>

definition translate :: "point \<Rightarrow> point \<Rightarrow> double \<times> double" where
  "translate p t =
     (double_add (Finite (fst p)) (Finite (fst t)), double_add (Finite (snd p)) (Finite (snd t)))"

text \<open>
  A triangle with the corners \<open>(- m, - m)\<close>, \<open>(m, - m)\<close>, \<open>(0, m)\<close>, closed by its first
  point. For \<open>m = 2 ^ 1023\<close>, half of the range of the doubles, the differences of its
  coordinates overflow.
\<close>

definition big_triangle :: "real \<Rightarrow> point list" where
  "big_triangle m = [(- m, - m), (m, - m), (0, m), (- m, - m)]"

definition overflow_triangle :: "point list" where
  "overflow_triangle = big_triangle (2 ^ 1023)"

text \<open>The doubles that Python reads from \<^verbatim>\<open>0.1\<close>, \<^verbatim>\<open>0.2\<close>, \<^verbatim>\<open>0.3\<close>, \<^verbatim>\<open>0.4\<close> and \<^verbatim>\<open>1.2\<close>.\<close>

definition d_0_1 :: real where
  "d_0_1 = 3602879701896397 / 2 ^ 55"

definition d_0_2 :: real where
  "d_0_2 = 3602879701896397 / 2 ^ 54"

definition d_0_3 :: real where
  "d_0_3 = 5404319552844595 / 2 ^ 54"

definition d_0_4 :: real where
  "d_0_4 = 3602879701896397 / 2 ^ 53"

definition d_1_2 :: real where
  "d_1_2 = 5404319552844595 / 2 ^ 52"

text \<open>The doubles of \<^verbatim>\<open>0.1 + 1\<close>, \<^verbatim>\<open>0.2 + 1\<close> and \<^verbatim>\<open>0.3 + 1\<close>.\<close>

definition d_1_1 :: real where
  "d_1_1 = 2476979795053773 / 2 ^ 51"

definition d_1_3 :: real where
  "d_1_3 = 5854679515581645 / 2 ^ 52"

text \<open>
  The point \<open>p\<close> moved by \<open>t\<close> is the point \<open>p'\<close>, and no sum was rounded: \<open>p'\<close> is
  \<open>p + t\<close>.
\<close>

definition moved_exactly :: "point \<Rightarrow> point \<Rightarrow> point \<Rightarrow> bool" where
  "moved_exactly p t p' =
     (translate p t = (Finite (fst p'), Finite (snd p')) \<and>
      fst p' = fst p + fst t \<and> snd p' = snd p + snd t)"

text \<open>A point with integer coordinates of magnitude at most \<open>2 ^ 24\<close>.\<close>

definition grid_point :: "point \<Rightarrow> bool" where
  "grid_point p =
     (\<exists>a b. p = (of_int a, of_int b) \<and> \<bar>a\<bar> \<le> 2 ^ 24 \<and> \<bar>b\<bar> \<le> 2 ^ 24)"

subsection \<open>Example requests\<close>

definition request_two_texts :: raw_request where
  "request_two_texts =
     \<lparr>raw_research_name = ''survey'',
      raw_day_start = (2024, 5, 17),
      raw_research_comment = PyNone,
      raw_approval_required = None,
      raw_descriptions =
        [TextDescription ''text'' ''a'',
         PointDescription ''point'' (1, 2) ''p'',
         TextDescription ''text'' ''b'']\<rparr>"

definition request_no_comment :: raw_request where
  "request_no_comment =
     \<lparr>raw_research_name = ''survey'',
      raw_day_start = (2024, 5, 17),
      raw_research_comment = PyNone,
      raw_approval_required = Some False,
      raw_descriptions = [TextDescription ''text'' ''a'']\<rparr>"

definition validated_no_comment :: CreateResearchRequest where
  "validated_no_comment =
     \<lparr>research_name = ''survey'',
      day_start = (2024, 5, 17),
      research_comment = Some '''',
      approval_required = False,
      descriptions = [TextDescription ''text'' ''a'']\<rparr>"

section \<open>Properties\<close>

text \<open>The loop equations are unfolded one step at a time, never by the simplifier alone.\<close>

declare inner_loop.simps [simp del]
declare outer_loop.simps [simp del]

subsection \<open>Rounding\<close>

lemmas rounding = round_double_def exponent_def pow2_def round_even_def Let_def

text \<open>
  Rounding on examples: the decimal 0.1 goes to the double Python prints as 0.1; a tie goes
  to the even neighbour, down at \<open>1 + 1 / 2 ^ 53\<close> and up at \<open>1 + 3 / 2 ^ 53\<close>;
  \<open>2 ^ 1024\<close> overflows, and so does what is nearer to it than to the largest double; half of the
  smallest subnormal goes to zero.
\<close>

lemma round_double_tenth: "round_double (1 / 10) = Finite d_0_1"
  by (simp add: rounding d_0_1_def)

lemma round_double_tie_down: "round_double (1 + 1 / 2 ^ 53) = Finite 1"
  by (simp add: rounding)

lemma round_double_tie_up: "round_double (1 + 3 / 2 ^ 53) = Finite (1 + 1 / 2 ^ 51)"
  by (simp add: rounding)

lemma round_double_overflow: "round_double (2 ^ 1024) = PosInf"
  by (simp add: rounding)

lemma round_double_near_overflow: "round_double (- (2 ^ 1024 - 2 ^ 970)) = NegInf"
  by (simp add: rounding)

lemma round_double_underflow: "round_double (1 / 2 ^ 1075) = Finite 0"
  by (simp add: rounding)

lemma round_double_subnormal: "round_double (3 / 2 ^ 1075) = Finite (1 / 2 ^ 1073)"
  by (simp add: rounding)

lemma pow2_pos: "0 < pow2 e"
  by (simp add: pow2_def)

lemma find_exponent_nonpos: "x \<le> 0 \<Longrightarrow> find_exponent x e ks = e"
proof (induction ks arbitrary: e)
  case Nil
  then show ?case by simp
next
  case (Cons k ks)
  have "\<not> pow2 (e + k) \<le> x"
    using pow2_pos [of "e + k"] Cons.prems by simp
  then show ?case
    using Cons by simp
qed

lemma round_double_zero: "round_double 0 = Finite 0"
proof -
  have "\<not> pow2 1024 \<le> 0"
    using pow2_pos [of 1024] by simp
  then show ?thesis
    by (simp add: round_double_def round_even_def)
qed

lemma double_sub_self: "double_sub (Finite x) (Finite x) = Finite 0"
  by (simp add: round_double_zero)

lemma double_mul_zero: "double_mul (Finite a) (Finite 0) = Finite 0"
  by (simp add: round_double_zero)

text \<open>
  Rounding leaves an integer below \<open>2 ^ 53\<close> in magnitude as it is: its exponent is at
  most 52, so it is a multiple of the spacing of the doubles around it.
\<close>

lemma pow2_powr: "pow2 e = 2 powr (real_of_int e)"
proof (cases "0 \<le> e")
  case True
  then have "2 powr (real_of_int e) = 2 powr (real (nat e))"
    by simp
  also have "\<dots> = 2 ^ nat e"
    by (simp add: powr_realpow)
  finally show ?thesis
    using True by (simp add: pow2_def)
next
  case False
  then have "2 powr (real_of_int e) = 2 powr (- real (nat (- e)))"
    by simp
  also have "\<dots> = 1 / 2 ^ nat (- e)"
    by (simp add: powr_minus powr_realpow divide_inverse)
  finally show ?thesis
    using False by (simp add: pow2_def)
qed

lemma pow2_le_iff: "pow2 a \<le> pow2 b \<longleftrightarrow> a \<le> b"
  by (simp add: pow2_powr)

lemma find_exponent_found:
  "find_exponent x e ks = e \<or> pow2 (find_exponent x e ks) \<le> x"
proof (induction ks arbitrary: e)
  case Nil
  then show ?case by simp
next
  case (Cons k ks)
  show ?case
  proof (cases "pow2 (e + k) \<le> x")
    case True
    with Cons [of "e + k"] show ?thesis by auto
  next
    case False
    with Cons [of e] show ?thesis by auto
  qed
qed

lemma exponent_small:
  assumes "\<bar>x\<bar> < 2 ^ 53"
  shows "exponent x \<le> 52"
proof -
  have "exponent x = - 1022 \<or> pow2 (exponent x) \<le> \<bar>x\<bar>"
    unfolding exponent_def by (rule find_exponent_found)
  then show ?thesis
  proof
    assume "exponent x = - 1022"
    then show ?thesis by simp
  next
    assume "pow2 (exponent x) \<le> \<bar>x\<bar>"
    then have "pow2 (exponent x) < 2 ^ 53"
      using assms by simp
    moreover have "pow2 53 = 2 ^ 53"
      by (simp add: pow2_def)
    ultimately have "\<not> pow2 53 \<le> pow2 (exponent x)"
      by simp
    then show ?thesis
      unfolding pow2_le_iff by simp
  qed
qed

lemma round_even_of_int: "round_even (of_int m) = m"
  by (simp add: round_even_def)

lemma round_double_of_int:
  assumes "\<bar>n\<bar> < 2 ^ 53"
  shows "round_double (of_int n) = Finite (of_int n)"
proof -
  define x :: real where "x = of_int n"
  have small: "\<bar>x\<bar> < 2 ^ 53"
  proof -
    have "\<bar>x\<bar> = of_int \<bar>n\<bar>"
      unfolding x_def by simp
    also have "\<dots> < of_int (2 ^ 53)"
      using assms by (simp only: of_int_less_iff)
    finally show ?thesis by simp
  qed
  define k where "k = nat (52 - exponent x)"
  have q: "pow2 (exponent x - 52) = 1 / 2 ^ k"
  proof (cases "exponent x = 52")
    case True
    then show ?thesis by (simp add: pow2_def k_def)
  next
    case False
    then have "exponent x - 52 < 0"
      using exponent_small [OF small] by simp
    then show ?thesis
      by (simp add: pow2_def k_def)
  qed
  have scaled: "\<bar>x\<bar> / (1 / 2 ^ k) = of_int (\<bar>n\<bar> * 2 ^ k)"
    unfolding x_def by simp
  have y: "of_int (round_even (\<bar>x\<bar> / (1 / 2 ^ k))) * (1 / 2 ^ k) = \<bar>x\<bar>"
    unfolding scaled round_even_of_int by (simp add: x_def)
  have "(2::real) ^ 53 \<le> 2 ^ 1024"
    by (rule power_increasing) simp_all
  then have fin: "\<not> pow2 1024 \<le> \<bar>x\<bar>"
    using small by (simp add: pow2_def)
  have "round_double x = Finite (if x < 0 then - \<bar>x\<bar> else \<bar>x\<bar>)"
    unfolding round_double_def Let_def q y using fin by simp
  then show ?thesis
    unfolding x_def by simp
qed

subsection \<open>Adjacent edges\<close>

lemma is_finite_iff: "is_finite d \<longleftrightarrow> (\<exists>x. d = Finite x)"
  by (cases d) simp_all

lemma orientation_val_repeat_right:
  assumes "edge_in_range p q"
  shows "orientation_val p q q = Finite 0"
proof -
  from assms obtain a b where "double_sub (Finite (snd q)) (Finite (snd p)) = Finite a"
    and "double_sub (Finite (fst q)) (Finite (fst p)) = Finite b"
    unfolding edge_in_range_def is_finite_iff by blast
  then show ?thesis
    unfolding orientation_val_def double_sub_self
    by (simp only: double_mul_zero double_sub_self)
qed

lemma orientation_repeat_right: "edge_in_range p q \<Longrightarrow> orientation p q q = 0"
  by (simp add: orientation_def orientation_val_repeat_right)

lemma on_segment_right_end: "on_segment p q q"
  by (simp add: on_segment_def)

lemma do_intersect_shared_vertex: "edge_in_range a b \<Longrightarrow> do_intersect a b b c"
  by (simp add: do_intersect_def Let_def orientation_repeat_right on_segment_right_end)

lemma inner_loop_first:
  assumes "3 \<le> length cs" and "edge_in_range (cs ! 0) (cs ! 1)"
  shows "inner_loop cs 0 1"
proof -
  have "do_intersect (cs ! 0) (cs ! (0 + 1)) (cs ! 1) (cs ! (1 + 1))"
    using assms(2) by (simp add: do_intersect_shared_vertex)
  moreover have "(1::nat) + 1 < length cs"
    using assms(1) by simp
  ultimately show ?thesis
    by (subst inner_loop.simps) simp
qed

lemma has_self_intersections_first_edge:
  assumes "3 \<le> length cs" and "edge_in_range (cs ! 0) (cs ! 1)"
  shows "has_self_intersections cs"
proof -
  have "(0::nat) + 2 < length cs"
    using assms(1) by simp
  moreover have "inner_loop cs 0 (0 + 1)"
    using inner_loop_first [OF assms] by simp
  ultimately show ?thesis
    unfolding has_self_intersections_def by (subst outer_loop.simps) simp
qed

lemma has_self_intersections_short:
  "length cs < 3 \<Longrightarrow> \<not> has_self_intersections cs"
  unfolding has_self_intersections_def by (subst outer_loop.simps) simp

text \<open>
  do_intersect itself tells segments apart: two sides of the square that face each other,
  and two segments of one line that are apart, do not intersect; the diagonals of the unit
  square do.
\<close>

lemmas evaluation = do_intersect_def orientation_def orientation_val_def on_segment_def

lemma do_intersect_facing_sides: "\<not> do_intersect (0, 0) (0, 1) (1, 1) (1, 0)"
  by (simp add: evaluation rounding)

lemma do_intersect_apart: "\<not> do_intersect (0, 0) (2, 0) (3, 0) (4, 0)"
  by (simp add: evaluation rounding)

lemma do_intersect_diagonals: "do_intersect (0, 0) (1, 1) (1, 0) (0, 1)"
  by (simp add: evaluation rounding)

subsection \<open>The triangle whose differences overflow\<close>

text \<open>
  The scan of the triangle, for any \<open>m\<close> that is a double whose double overflows: every
  \<^verbatim>\<open>val\<close> is an infinity or NaN, so every orientation is 2 and no pair of edges is
  reported.
\<close>

lemma big_triangle_scan:
  assumes pos: "0 < m"
    and up: "round_double m = Finite m" and down: "round_double (- m) = Finite (- m)"
    and over: "round_double (2 * m) = PosInf" and under: "round_double (- (2 * m)) = NegInf"
  shows "\<not> has_self_intersections (big_triangle m)"
  using pos
  by (simp add: has_self_intersections_def big_triangle_def
      outer_loop.simps inner_loop.simps evaluation Let_def round_double_zero up down over
      under)

lemma big_triangle_checks:
  assumes "0 < m"
  shows "validate_polygon (big_triangle m) =
     (if has_self_intersections (big_triangle m) then Inl SelfIntersecting
      else Inr (big_triangle m))"
  using assms
  by (simp add: validate_polygon_def validate_coordinates_def check_polygon_validity_def
      big_triangle_def)

lemma round_double_half_range:
  "round_double (2 ^ 1023) = Finite (2 ^ 1023) \<and>
   round_double (- (2 ^ 1023)) = Finite (- (2 ^ 1023)) \<and>
   round_double (2 * 2 ^ 1023) = PosInf \<and>
   round_double (- (2 * 2 ^ 1023)) = NegInf"
  by (simp add: rounding)

lemma overflow_triangle_doubles:
  "is_double (2 ^ 1023) \<and> is_double (- (2 ^ 1023)) \<and> is_double 0"
  unfolding is_double_def using round_double_half_range round_double_zero by blast

lemma overflow_triangle_scan: "\<not> has_self_intersections overflow_triangle"
  unfolding overflow_triangle_def
  using round_double_half_range by (intro big_triangle_scan) simp_all

lemma overflow_triangle_valid: "validate_polygon overflow_triangle = Inr overflow_triangle"
proof -
  have "validate_polygon (big_triangle (2 ^ 1023)) =
     (if has_self_intersections (big_triangle (2 ^ 1023)) then Inl SelfIntersecting
      else Inr (big_triangle (2 ^ 1023)))"
    by (rule big_triangle_checks) simp
  then show ?thesis
    using overflow_triangle_scan unfolding overflow_triangle_def by simp
qed

subsection \<open>The checks of validate_polygon, in their order\<close>

lemma validate_polygon_short:
  "length v < 4 \<Longrightarrow> validate_polygon v = Inl TooFewPoints"
  by (simp add: validate_polygon_def validate_coordinates_def)

lemma validate_polygon_long:
  "4 \<le> length v \<Longrightarrow> validate_polygon v = check_polygon_validity v"
  by (simp add: validate_polygon_def validate_coordinates_def)

lemma repeated_iff: "length (remdups xs) \<noteq> length xs \<longleftrightarrow> \<not> distinct xs"
  by simp

lemma validate_polygon_cases:
  assumes "4 \<le> length v"
  shows "validate_polygon v =
     (if hd v \<noteq> last v then Inl NotClosed
      else if \<not> distinct (butlast v) then Inl DuplicateVertex
      else if has_self_intersections v then Inl SelfIntersecting
      else Inr v)"
proof -
  have "v \<noteq> []"
    using assms by auto
  then have "check_polygon_validity v =
     (if hd v \<noteq> last v then Inl NotClosed
      else if \<not> distinct (butlast v) then Inl DuplicateVertex
      else if has_self_intersections v then Inl SelfIntersecting
      else Inr v)"
    unfolding check_polygon_validity_def repeated_iff by simp
  then show ?thesis
    by (simp only: validate_polygon_long [OF assms])
qed

lemma validate_polygon_Inr: "validate_polygon v = Inr p \<Longrightarrow> p = v"
  by (auto simp: validate_polygon_def validate_coordinates_def check_polygon_validity_def
      split: if_splits)

text \<open>
  C1. The claim: the square \<open>[(0,0),(0,1),(1,1),(1,0),(0,0)]\<close> validates successfully.
  The code does not accept it: the square passes the size, closure and repetition checks,
  and the scan then compares its first edge with its second, which share the vertex (0,1),
  so the result is the error of a self-intersecting polygon.
\<close>

theorem square_is_rejected:
  "validate_polygon square = Inl SelfIntersecting \<and>
   error_message SelfIntersecting = ''Polygon sides intersect with each other''"
proof -
  have long: "4 \<le> length square"
    by (simp add: square_def)
  have "edge_in_range (square ! 0) (square ! 1)"
    by (simp add: square_def edge_in_range_def rounding)
  then have "has_self_intersections square"
    using long by (intro has_self_intersections_first_edge) simp_all
  with validate_polygon_cases [OF long]
  show ?thesis
    by (simp add: square_def)
qed

text \<open>
  C2. The claim: for every coordinate list of at least 4 points has_self_intersections
  returns True, so that no polygon is ever accepted. In the triangle with the corners
  \<open>(-M, -M)\<close>, \<open>(M, -M)\<close>, \<open>(0, M)\<close> for \<open>M = 2 ^ 1023\<close> every \<^verbatim>\<open>val\<close> is an infinity or NaN,
  every orientation is 2, the scan returns False and the polygon is accepted.
\<close>

theorem overflow_triangle_accepted:
  "overflow_triangle =
     [(- (2 ^ 1023), - (2 ^ 1023)), (2 ^ 1023, - (2 ^ 1023)), (0, 2 ^ 1023),
      (- (2 ^ 1023), - (2 ^ 1023))] \<and>
   is_double (2 ^ 1023) \<and> is_double (- (2 ^ 1023)) \<and> is_double 0 \<and>
   4 \<le> length overflow_triangle \<and>
   \<not> has_self_intersections overflow_triangle \<and>
   validate_polygon overflow_triangle = Inr overflow_triangle"
proof -
  have "overflow_triangle =
     [(- (2 ^ 1023), - (2 ^ 1023)), (2 ^ 1023, - (2 ^ 1023)), (0, 2 ^ 1023),
      (- (2 ^ 1023), - (2 ^ 1023))]"
    unfolding overflow_triangle_def big_triangle_def ..
  moreover have "4 \<le> length overflow_triangle"
    unfolding overflow_triangle_def big_triangle_def by simp
  ultimately show ?thesis
    using overflow_triangle_doubles overflow_triangle_scan overflow_triangle_valid
    by blast
qed

text \<open>
  C2, amended. For every coordinate list of at least 4 points whose first edge has
  coordinate differences that do not overflow, has_self_intersections returns True: the
  first pair the scan compares is the edge from point 0 to point 1 with the edge from
  point 1 to point 2, whose shared point 1 gives \<^verbatim>\<open>val\<close> zero and is inside the bounding
  box of the first edge. So validate_polygon accepts no such list, and one that passes the
  size, closure and repetition checks is rejected as self-intersecting.
\<close>

theorem has_self_intersections_always:
  assumes "4 \<le> length cs" and "edge_in_range (cs ! 0) (cs ! 1)"
  shows "orientation (cs ! 0) (cs ! 1) (cs ! 1) = 0 \<and>
         on_segment (cs ! 0) (cs ! 1) (cs ! 1) \<and>
         do_intersect (cs ! 0) (cs ! 1) (cs ! 1) (cs ! 2) \<and>
         has_self_intersections cs \<and>
         (\<forall>p. validate_polygon cs \<noteq> Inr p) \<and>
         (hd cs = last cs \<and> distinct (butlast cs)
            \<longrightarrow> validate_polygon cs = Inl SelfIntersecting)"
proof -
  have three: "3 \<le> length cs"
    using assms(1) by simp
  have scan: "has_self_intersections cs"
    using three assms(2) by (rule has_self_intersections_first_edge)
  have "\<forall>p. validate_polygon cs \<noteq> Inr p"
    by (simp add: validate_polygon_cases [OF assms(1)] scan)
  moreover have "hd cs = last cs \<and> distinct (butlast cs)
      \<longrightarrow> validate_polygon cs = Inl SelfIntersecting"
    by (simp add: validate_polygon_cases [OF assms(1)] scan)
  ultimately show ?thesis
    using assms(2)
    by (simp add: orientation_repeat_right on_segment_right_end do_intersect_shared_vertex
        scan)
qed

theorem has_self_intersections_always_witness:
  "edge_in_range (0, 0) (1, 0) \<and>
   has_self_intersections [(0, 0), (1, 0), (0, 1), (0, 0)] \<and>
   do_intersect (0, 0) (1, 0) (1, 0) (0, 1) \<and>
   validate_polygon [(0, 0), (1, 0), (0, 1), (0, 0)] = Inl SelfIntersecting"
proof -
  have "edge_in_range (0, 0) (1, 0)"
    by (simp add: edge_in_range_def rounding)
  then show ?thesis
    using has_self_intersections_always [of "[(0, 0), (1, 0), (0, 1), (0, 0)]"]
    by simp
qed

text \<open>
  C4. Every sequence of fewer than 4 points fails with TooFewPoints, whatever the other
  checks would say of it.
\<close>

theorem too_few_points:
  "length v < 4 \<Longrightarrow> validate_polygon v = Inl TooFewPoints"
  by (rule validate_polygon_short)

theorem too_few_points_witness:
  "length [(0, 0), (0, 0), (5, 5) :: point] < 4 \<and>
   validate_polygon [(0, 0), (0, 0), (5, 5)] = Inl TooFewPoints"
  using too_few_points [of "[(0, 0), (0, 0), (5, 5)]"]
  by simp

text \<open>
  C5. Every sequence of at least 4 points whose first point differs from its last fails with
  NotClosed, also when it repeats a point.
\<close>

theorem not_closed:
  "4 \<le> length v \<Longrightarrow> hd v \<noteq> last v \<Longrightarrow> validate_polygon v = Inl NotClosed"
  by (simp add: validate_polygon_cases)

theorem not_closed_witness:
  "4 \<le> length [(0, 0), (0, 0), (1, 1), (2, 2) :: point] \<and>
   hd [(0, 0), (0, 0), (1, 1), (2, 2) :: point] \<noteq> last [(0, 0), (0, 0), (1, 1), (2, 2)] \<and>
   validate_polygon [(0, 0), (0, 0), (1, 1), (2, 2)] = Inl NotClosed"
  using not_closed [of "[(0, 0), (0, 0), (1, 1), (2, 2)]"]
  by simp

text \<open>
  C6. The claim: any closed sequence (first point equal to last) with a repeated point among
  the points before the closing one fails with DuplicateVertex. The size check comes first,
  so a closed sequence of three equal points fails with TooFewPoints instead.
\<close>

theorem duplicate_vertex_counterexample:
  "\<not> (\<forall>v. v \<noteq> [] \<and> hd v = last v \<and> \<not> distinct (butlast v)
         \<longrightarrow> validate_polygon v = Inl DuplicateVertex)"
proof
  assume all: "\<forall>v. v \<noteq> [] \<and> hd v = last v \<and> \<not> distinct (butlast v)
         \<longrightarrow> validate_polygon v = Inl DuplicateVertex"
  have "validate_polygon [(0, 0), (0, 0), (0, 0)] = Inl TooFewPoints"
    by (simp add: validate_polygon_short)
  moreover have "validate_polygon [(0, 0), (0, 0), (0, 0)] = Inl DuplicateVertex"
    using all [rule_format, of "[(0, 0), (0, 0), (0, 0)]"] by simp
  ultimately show False
    by simp
qed

text \<open>
  C6, amended. A closed sequence of at least 4 points with a repeated point among the points
  before the closing one fails with DuplicateVertex.
\<close>

theorem duplicate_vertex:
  "4 \<le> length v \<Longrightarrow> hd v = last v \<Longrightarrow> \<not> distinct (butlast v)
     \<Longrightarrow> validate_polygon v = Inl DuplicateVertex"
  by (simp add: validate_polygon_cases)

theorem duplicate_vertex_witness:
  "4 \<le> length [(0, 0), (1, 1), (1, 1), (0, 0) :: point] \<and>
   hd [(0, 0), (1, 1), (1, 1), (0, 0) :: point] = last [(0, 0), (1, 1), (1, 1), (0, 0)] \<and>
   \<not> distinct (butlast [(0, 0), (1, 1), (1, 1), (0, 0) :: point]) \<and>
   validate_polygon [(0, 0), (1, 1), (1, 1), (0, 0)] = Inl DuplicateVertex"
  using duplicate_vertex [of "[(0, 0), (1, 1), (1, 1), (0, 0)]"]
  by simp

text \<open>
  C8. The claim: orientation gives the same answer when its three points are moved by the
  same vector. Moving (0.1, 0.1), (0.2, 0.2), (0.3, 0.3) by (1, 0) rounds the three sums,
  and orientation is 0 before and 1 after.
\<close>

theorem orientation_translation_counterexample:
  "translate (d_0_1, d_0_1) (1, 0) = (Finite d_1_1, Finite d_0_1) \<and>
   translate (d_0_2, d_0_2) (1, 0) = (Finite d_1_2, Finite d_0_2) \<and>
   translate (d_0_3, d_0_3) (1, 0) = (Finite d_1_3, Finite d_0_3) \<and>
   orientation (d_0_1, d_0_1) (d_0_2, d_0_2) (d_0_3, d_0_3) = 0 \<and>
   orientation (d_1_1, d_0_1) (d_1_2, d_0_2) (d_1_3, d_0_3) = 1"
proof -
  have "translate (d_0_1, d_0_1) (1, 0) = (Finite d_1_1, Finite d_0_1)"
    by (simp add: translate_def d_0_1_def d_1_1_def rounding)
  moreover have "translate (d_0_2, d_0_2) (1, 0) = (Finite d_1_2, Finite d_0_2)"
    by (simp add: translate_def d_0_2_def d_1_2_def rounding)
  moreover have "translate (d_0_3, d_0_3) (1, 0) = (Finite d_1_3, Finite d_0_3)"
    by (simp add: translate_def d_0_3_def d_1_3_def rounding)
  moreover have "orientation (d_0_1, d_0_1) (d_0_2, d_0_2) (d_0_3, d_0_3) = 0"
    by (simp add: orientation_def orientation_val_def d_0_1_def d_0_2_def d_0_3_def rounding)
  moreover have "orientation (d_1_1, d_0_1) (d_1_2, d_0_2) (d_1_3, d_0_3) = 1"
    by (simp add: orientation_def orientation_val_def d_0_1_def d_0_2_def d_0_3_def
        d_1_1_def d_1_2_def d_1_3_def rounding)
  ultimately show ?thesis
    by blast
qed

text \<open>
  C8, amended. orientation gives the same answer when its three points are moved by the
  same vector and the moved coordinates are the exact sums, none of them rounded: the
  coordinate differences that orientation starts from are then the same numbers.
\<close>

theorem orientation_translation:
  assumes "moved_exactly p t p'" and "moved_exactly q t q'" and "moved_exactly r t r'"
  shows "orientation p' q' r' = orientation p q r"
proof -
  have "fst p' = fst p + fst t" "snd p' = snd p + snd t"
    "fst q' = fst q + fst t" "snd q' = snd q + snd t"
    "fst r' = fst r + fst t" "snd r' = snd r + snd t"
    using assms unfolding moved_exactly_def by simp_all
  then have "orientation_val p' q' r' = orientation_val p q r"
    unfolding orientation_val_def by simp
  then show ?thesis
    by (simp add: orientation_def)
qed

theorem orientation_translation_witness:
  "moved_exactly (0, 0) (3, 2) (3, 2) \<and> moved_exactly (1, 0) (3, 2) (4, 2) \<and>
   moved_exactly (1, 1) (3, 2) (4, 3) \<and>
   orientation (3, 2) (4, 2) (4, 3) = orientation (0, 0) (1, 0) (1, 1) \<and>
   orientation (0, 0) (1, 0) (1, 1) = 2"
proof -
  have p: "moved_exactly (0, 0) (3, 2) (3, 2)"
    by (simp add: moved_exactly_def translate_def rounding)
  have q: "moved_exactly (1, 0) (3, 2) (4, 2)"
    by (simp add: moved_exactly_def translate_def rounding)
  have r: "moved_exactly (1, 1) (3, 2) (4, 3)"
    by (simp add: moved_exactly_def translate_def rounding)
  have "orientation (0, 0) (1, 0) (1, 1) = 2"
    by (simp add: orientation_def orientation_val_def rounding)
  with p q r orientation_translation [OF p q r] show ?thesis
    by simp
qed

text \<open>
  C9. Validating, and validating again what the first run handed back, gives the result of
  the first run: a success hands back the sequence it was given, which validates again, and
  an error stays the error. The result is a function of the sequence alone.
\<close>

theorem validate_polygon_idempotent:
  "(case validate_polygon v of
      Inl e \<Rightarrow> Inl e
    | Inr p \<Rightarrow> validate_polygon p) = validate_polygon v \<and>
   (validate_polygon v = Inr p \<longrightarrow> p = v \<and> validate_polygon p = Inr p)"
proof (cases "validate_polygon v")
  case (Inl e)
  then show ?thesis by simp
next
  case (Inr p')
  then have "p' = v"
    by (rule validate_polygon_Inr)
  with Inr show ?thesis by auto
qed

theorem validate_polygon_idempotent_witness:
  "validate_polygon overflow_triangle = Inr overflow_triangle \<and>
   (case validate_polygon overflow_triangle of
      Inl e \<Rightarrow> Inl e
    | Inr p \<Rightarrow> validate_polygon p) = Inr overflow_triangle \<and>
   (case validate_polygon square of
      Inl e \<Rightarrow> Inl e
    | Inr p \<Rightarrow> validate_polygon p) = validate_polygon square"
  using validate_polygon_idempotent [of overflow_triangle overflow_triangle]
    validate_polygon_idempotent [of square square] overflow_triangle_valid
  by simp

subsection \<open>Building a CreateResearchRequest\<close>

lemma validate_description_Inr: "validate_description d = Inr v \<Longrightarrow> v = d"
  by (cases d) (auto split: sum.splits dest: validate_polygon_Inr)

lemma validate_descriptions_valid:
  "\<forall>d\<in>set ds. \<exists>v. validate_description d = Inr v
     \<Longrightarrow> validate_descriptions i ds = ([], ds)"
proof (induction ds arbitrary: i)
  case Nil
  then show ?case by simp
next
  case (Cons d ds)
  then obtain v where v: "validate_description d = Inr v"
    by auto
  then have "v = d"
    by (rule validate_description_Inr)
  with v Cons show ?case
    by simp
qed

lemma filter_remove_nth:
  assumes "i < length ds" and "P (ds ! i)"
  shows "Suc (length (filter P (take i ds @ drop (Suc i) ds))) = length (filter P ds)"
proof -
  have "ds = take i ds @ ds ! i # drop (Suc i) ds"
    using assms(1) by (rule id_take_nth_drop)
  then have "filter P ds = filter P (take i ds) @ ds ! i # filter P (drop (Suc i) ds)"
    using assms(2) by (metis filter.simps(2) filter_append)
  then show ?thesis
    by simp
qed

text \<open>With valid members and a comment of an allowed type only the model validator decides.\<close>

lemma create_valid:
  assumes "\<forall>d\<in>set (raw_descriptions raw). \<exists>v. validate_description d = Inr v"
    and "raw_research_comment raw \<noteq> PyOther"
  shows "create_research_request raw =
     (if length (filter is_TextDescription (raw_descriptions raw)) > 1
      then Inl [TooManyTextDescriptors]
      else Inr \<lparr>research_name = raw_research_name raw,
                 day_start = raw_day_start raw,
                 research_comment =
                   (case raw_research_comment raw of PyStr s \<Rightarrow> Some s | _ \<Rightarrow> Some ''''),
                 approval_required =
                   (case raw_approval_required raw of None \<Rightarrow> True | Some b \<Rightarrow> b),
                 descriptions = raw_descriptions raw\<rparr>)"
  using assms(2)
  by (cases "raw_research_comment raw")
     (simp_all add: create_research_request_def validate_descriptions_valid [OF assms(1)]
        validate_comment_def check_single_text_description_def)

lemma comment_never_None:
  "create_research_request raw = Inr r \<Longrightarrow> research_comment r \<noteq> None"
  by (cases "raw_research_comment raw")
     (auto simp: create_research_request_def validate_comment_def Let_def
        check_single_text_description_def split: prod.splits sum.splits if_splits)

lemma comment_None_empty:
  "create_research_request raw = Inr r \<Longrightarrow> raw_research_comment raw = PyNone
     \<Longrightarrow> research_comment r = Some ''''"
  by (auto simp: create_research_request_def validate_comment_def Let_def
        check_single_text_description_def split: prod.splits sum.splits if_splits)

text \<open>
  C7. A request whose descriptions are each valid and hold exactly two TextDescriptions is
  rejected by check_single_text_description with the error of too many text descriptions,
  and the same request with either TextDescription taken out is accepted, the remaining
  descriptions unchanged and in their order.
\<close>

theorem two_text_descriptions:
  assumes valid: "\<forall>d\<in>set (raw_descriptions raw). \<exists>v. validate_description d = Inr v"
    and cmt: "raw_research_comment raw \<noteq> PyOther"
    and two: "length (filter is_TextDescription (raw_descriptions raw)) = 2"
  shows "create_research_request raw = Inl [TooManyTextDescriptors] \<and>
     (\<forall>i < length (raw_descriptions raw).
        is_TextDescription (raw_descriptions raw ! i) \<longrightarrow>
        (\<exists>r. create_research_request
               (raw\<lparr>raw_descriptions :=
                      take i (raw_descriptions raw) @ drop (Suc i) (raw_descriptions raw)\<rparr>)
               = Inr r \<and>
             descriptions r
               = take i (raw_descriptions raw) @ drop (Suc i) (raw_descriptions raw)))"
proof (intro conjI allI impI)
  show "create_research_request raw = Inl [TooManyTextDescriptors]"
    using two by (simp add: create_valid [OF valid cmt])
next
  fix i
  assume i: "i < length (raw_descriptions raw)"
    and istext: "is_TextDescription (raw_descriptions raw ! i)"
  let ?ds = "take i (raw_descriptions raw) @ drop (Suc i) (raw_descriptions raw)"
  let ?raw = "raw\<lparr>raw_descriptions := ?ds\<rparr>"
  have "set ?ds \<subseteq> set (raw_descriptions raw)"
    using set_take_subset [of i "raw_descriptions raw"]
      set_drop_subset [of "Suc i" "raw_descriptions raw"]
    by auto
  then have valid': "\<forall>d\<in>set (raw_descriptions ?raw). \<exists>v. validate_description d = Inr v"
    using valid by auto
  have cmt': "raw_research_comment ?raw \<noteq> PyOther"
    using cmt by simp
  have "Suc (length (filter is_TextDescription ?ds)) = 2"
    using filter_remove_nth [of i "raw_descriptions raw" is_TextDescription] i istext two
    by simp
  then have one: "\<not> length (filter is_TextDescription (raw_descriptions ?raw)) > 1"
    by simp
  show "\<exists>r. create_research_request ?raw = Inr r \<and> descriptions r = ?ds"
    unfolding create_valid [OF valid' cmt'] using one by simp
qed

theorem two_text_descriptions_witness:
  "create_research_request request_two_texts = Inl [TooManyTextDescriptors] \<and>
   (\<exists>r. create_research_request
          (request_two_texts\<lparr>raw_descriptions :=
             [TextDescription ''text'' ''a'', PointDescription ''point'' (1, 2) ''p'']\<rparr>)
          = Inr r \<and>
        descriptions r = [TextDescription ''text'' ''a'', PointDescription ''point'' (1, 2) ''p''])"
proof -
  have valid: "\<forall>d\<in>set (raw_descriptions request_two_texts). \<exists>v. validate_description d = Inr v"
    by (simp add: request_two_texts_def)
  have cmt: "raw_research_comment request_two_texts \<noteq> PyOther"
    by (simp add: request_two_texts_def)
  have two: "length (filter is_TextDescription (raw_descriptions request_two_texts)) = 2"
    by (simp add: request_two_texts_def)
  have third: "2 < length (raw_descriptions request_two_texts) \<and>
      is_TextDescription (raw_descriptions request_two_texts ! 2)"
    by (simp add: request_two_texts_def)
  have removed: "take 2 (raw_descriptions request_two_texts)
        @ drop (Suc 2) (raw_descriptions request_two_texts)
      = [TextDescription ''text'' ''a'', PointDescription ''point'' (1, 2) ''p'']"
    by (simp add: request_two_texts_def)
  from two_text_descriptions [OF valid cmt two] third
  show ?thesis
    unfolding removed [symmetric] by blast
qed

text \<open>
  C10. validate_comment turns a supplied None into the empty string, so the comment of a
  CreateResearchRequest that was built is never None, and is the empty string when None was
  supplied.
\<close>

theorem comment_normalized:
  "validate_comment PyNone = PyStr '''' \<and>
   (create_research_request raw = Inr r \<longrightarrow>
      research_comment r \<noteq> None \<and>
      (raw_research_comment raw = PyNone \<longrightarrow> research_comment r = Some ''''))"
  using comment_never_None [of raw r] comment_None_empty [of raw r]
  by (simp add: validate_comment_def)

theorem comment_normalized_witness:
  "create_research_request request_no_comment = Inr validated_no_comment \<and>
   raw_research_comment request_no_comment = PyNone \<and>
   research_comment validated_no_comment = Some ''''"
proof -
  have "create_research_request request_no_comment = Inr validated_no_comment"
    by (simp add: create_research_request_def request_no_comment_def validated_no_comment_def
        validate_comment_def check_single_text_description_def)
  moreover have "raw_research_comment request_no_comment = PyNone"
    by (simp add: request_no_comment_def)
  ultimately show ?thesis
    using comment_normalized [of request_no_comment validated_no_comment] by simp
qed


subsection \<open>Segments with a common point\<close>

lemma orientation_cross:
  assumes "exact_val p q r"
  shows "orientation p q r = (if cross p q r = 0 then 0 else if cross p q r > 0 then 1 else 2)"
  using assms by (simp add: orientation_def exact_val_def)

lemma orientation_zero_iff:
  "exact_val p q r \<Longrightarrow> orientation p q r = 0 \<longleftrightarrow> cross p q r = 0"
  by (simp add: orientation_cross)

lemma orientation_opposite:
  assumes "exact_val p q r" and "exact_val p q r'"
    and "cross p q r * cross p q r' < 0"
  shows "orientation p q r \<noteq> orientation p q r'"
  using assms(3)
  by (auto simp: orientation_cross [OF assms(1)] orientation_cross [OF assms(2)]
      mult_less_0_iff)

lemma convex_bounds:
  fixes a b t :: real
  assumes "0 \<le> t" and "t \<le> 1"
  shows "min a b \<le> a + t * (b - a) \<and> a + t * (b - a) \<le> max a b"
proof -
  have between: "min a b \<le> a + d \<and> a + d \<le> max a b"
    if "(0 \<le> d \<and> d \<le> b - a) \<or> (b - a \<le> d \<and> d \<le> 0)" for d :: real
    using that by auto
  show ?thesis
  proof (cases "a \<le> b")
    case True
    then have "0 \<le> t * (b - a)"
      using assms(1) by simp
    moreover have "t * (b - a) \<le> b - a"
      using assms True by (simp add: mult_left_le_one_le)
    ultimately show ?thesis
      by (intro between) blast
  next
    case False
    then have ba: "0 \<le> a - b"
      by simp
    then have "0 \<le> t * (a - b)"
      using assms(1) by simp
    moreover have "t * (a - b) \<le> a - b"
      using assms ba by (simp add: mult_left_le_one_le)
    moreover have "t * (b - a) = - (t * (a - b))"
      by (simp add: algebra_simps)
    ultimately have "b - a \<le> t * (b - a) \<and> t * (b - a) \<le> 0"
      by linarith
    then show ?thesis
      by (intro between) blast
  qed
qed

lemma lies_on_cross:
  assumes "lies_on x a b"
  shows "cross a b x = 0"
proof -
  from assms obtain t where fx: "fst x = fst a + t * (fst b - fst a)"
    and sx: "snd x = snd a + t * (snd b - snd a)"
    unfolding lies_on_def by blast
  show ?thesis
    unfolding cross_def fx sx by (simp add: algebra_simps)
qed

lemma lies_on_on_segment: "lies_on x a b \<Longrightarrow> on_segment a x b"
  using convex_bounds
  by (auto simp: lies_on_def on_segment_def)

lemma cross_affine:
  assumes "fst x = fst p + t * (fst q - fst p)" and "snd x = snd p + t * (snd q - snd p)"
  shows "cross a b x = (1 - t) * cross a b p + t * cross a b q"
  unfolding cross_def assms by (simp add: algebra_simps)

lemma do_intersect_iff:
  "do_intersect p1 q1 p2 q2 \<longleftrightarrow>
     orientation p1 q1 p2 \<noteq> orientation p1 q1 q2 \<and>
       orientation p2 q2 p1 \<noteq> orientation p2 q2 q1 \<or>
     orientation p1 q1 p2 = 0 \<and> on_segment p1 p2 q1 \<or>
     orientation p1 q1 q2 = 0 \<and> on_segment p1 q2 q1 \<or>
     orientation p2 q2 p1 = 0 \<and> on_segment p2 p1 q2 \<or>
     orientation p2 q2 q1 = 0 \<and> on_segment p2 q1 q2"
  by (auto simp: do_intersect_def Let_def)

lemma touch_do_intersect:
  assumes ex: "exact_vals p1 q1 p2 q2" and touch: "touch_at_endpoint p1 q1 p2 q2"
  shows "do_intersect p1 q1 p2 q2"
proof -
  have e1: "exact_val p1 q1 p2" and e2: "exact_val p1 q1 q2"
    and e3: "exact_val p2 q2 p1" and e4: "exact_val p2 q2 q1"
    using ex unfolding exact_vals_def by simp_all
  from touch show ?thesis
    unfolding touch_at_endpoint_def do_intersect_iff
      orientation_zero_iff [OF e1] orientation_zero_iff [OF e2]
      orientation_zero_iff [OF e3] orientation_zero_iff [OF e4]
    using lies_on_cross lies_on_on_segment by blast
qed

lemma collinear_param:
  assumes "cross p q r = 0" and "p \<noteq> q"
  shows "\<exists>a. fst r = fst p + a * (fst q - fst p) \<and> snd r = snd p + a * (snd q - snd p)"
proof -
  define dx where "dx = fst q - fst p"
  define dy where "dy = snd q - snd p"
  define ux where "ux = fst r - fst p"
  define uy where "uy = snd r - snd p"
  have par: "dy * ux = dx * uy"
    using assms(1) unfolding cross_def dx_def dy_def ux_def uy_def
    by (simp add: algebra_simps)
  have "dx \<noteq> 0 \<or> dy \<noteq> 0"
    using assms(2) unfolding dx_def dy_def by (auto simp: prod_eq_iff)
  then have "\<exists>a. ux = a * dx \<and> uy = a * dy"
  proof
    assume nz: "dx \<noteq> 0"
    have "uy = ux / dx * dy"
      using par nz by (simp add: field_simps)
    moreover have "ux = ux / dx * dx"
      using nz by simp
    ultimately show ?thesis by blast
  next
    assume nz: "dy \<noteq> 0"
    have "ux = uy / dy * dx"
      using par nz by (simp add: field_simps)
    moreover have "uy = uy / dy * dy"
      using nz by simp
    ultimately show ?thesis by blast
  qed
  then obtain a where "ux = a * dx" and "uy = a * dy"
    by blast
  then have "fst r = fst p + a * (fst q - fst p) \<and> snd r = snd p + a * (snd q - snd p)"
    unfolding dx_def dy_def ux_def uy_def by simp
  then show ?thesis ..
qed

lemma between_zero:
  fixes a b s t :: real
  assumes "0 \<le> s" and "s \<le> 1" and "0 \<le> t" and "t \<le> 1" and "s = a + t * (b - a)"
  shows "(0 \<le> a \<and> a \<le> 1) \<or> (0 \<le> b \<and> b \<le> 1) \<or>
         (\<exists>k. 0 \<le> k \<and> k \<le> 1 \<and> a + k * (b - a) = 0)"
proof -
  have bounds: "min a b \<le> s \<and> s \<le> max a b"
    using convex_bounds [OF assms(3,4), of a b] assms(5) by simp
  have zero: "\<exists>k. 0 \<le> k \<and> k \<le> 1 \<and> a + k * (b - a) = 0"
    if "(a < 0 \<and> 1 < b) \<or> (1 < a \<and> b < 0)"
  proof -
    have ne: "b - a \<noteq> 0"
      using that by auto
    have "0 \<le> - a / (b - a)"
      using that by (auto simp: field_simps)
    moreover have "- a / (b - a) \<le> 1"
      using that by (auto simp: field_simps)
    moreover have "a + (- a / (b - a)) * (b - a) = 0"
      using ne by simp
    ultimately show ?thesis by blast
  qed
  show ?thesis
  proof (cases "(a < 0 \<and> 1 < b) \<or> (1 < a \<and> b < 0)")
    case True
    then show ?thesis using zero by blast
  next
    case False
    then show ?thesis using bounds assms(1,2) by (auto simp: min_def max_def split: if_splits)
  qed
qed

lemma lies_on_left_end: "lies_on a a b"
  unfolding lies_on_def by (rule exI [of _ 0]) simp

lemma collinear_touch:
  assumes x1: "lies_on x p1 q1" and x2: "lies_on x p2 q2"
    and c1: "cross p1 q1 p2 = 0" and c2: "cross p1 q1 q2 = 0"
  shows "touch_at_endpoint p1 q1 p2 q2"
proof (cases "p1 = q1")
  case True
  from x1 have "fst x = fst p1 \<and> snd x = snd p1"
    unfolding lies_on_def True by auto
  then have "x = p1"
    by (simp add: prod_eq_iff)
  with x2 show ?thesis
    unfolding touch_at_endpoint_def by blast
next
  case False
  define dx where "dx = fst q1 - fst p1"
  define dy where "dy = snd q1 - snd p1"
  have nz: "dx \<noteq> 0 \<or> dy \<noteq> 0"
    using False unfolding dx_def dy_def by (auto simp: prod_eq_iff)
  from x1 obtain s where s: "0 \<le> s" "s \<le> 1"
    and xs: "fst x = fst p1 + s * dx" "snd x = snd p1 + s * dy"
    unfolding lies_on_def dx_def dy_def by blast
  from x2 obtain t where t: "0 \<le> t" "t \<le> 1"
    and xt: "fst x = fst p2 + t * (fst q2 - fst p2)" "snd x = snd p2 + t * (snd q2 - snd p2)"
    unfolding lies_on_def by blast
  from collinear_param [OF c1 False] obtain a
    where a: "fst p2 = fst p1 + a * dx" "snd p2 = snd p1 + a * dy"
    unfolding dx_def dy_def by blast
  from collinear_param [OF c2 False] obtain b
    where b: "fst q2 = fst p1 + b * dx" "snd q2 = snd p1 + b * dy"
    unfolding dx_def dy_def by blast
  have "s * dx = (a + t * (b - a)) * dx"
    using xs(1) xt(1) unfolding a b by (simp add: algebra_simps)
  moreover have "s * dy = (a + t * (b - a)) * dy"
    using xs(2) xt(2) unfolding a b by (simp add: algebra_simps)
  ultimately have "s = a + t * (b - a)"
    using nz by auto
  from between_zero [OF s t this]
  show ?thesis
  proof (elim disjE conjE exE)
    assume "0 \<le> a" "a \<le> 1"
    then have "lies_on p2 p1 q1"
      unfolding lies_on_def using a unfolding dx_def dy_def by blast
    then show ?thesis
      unfolding touch_at_endpoint_def by blast
  next
    assume "0 \<le> b" "b \<le> 1"
    then have "lies_on q2 p1 q1"
      unfolding lies_on_def using b unfolding dx_def dy_def by blast
    then show ?thesis
      unfolding touch_at_endpoint_def by blast
  next
    fix k :: real
    assume k: "0 \<le> k" "k \<le> 1" and zero: "a + k * (b - a) = 0"
    have "fst p2 + k * (fst q2 - fst p2) = fst p1 + (a + k * (b - a)) * dx"
      unfolding a b by (simp add: algebra_simps)
    moreover have "snd p2 + k * (snd q2 - snd p2) = snd p1 + (a + k * (b - a)) * dy"
      unfolding a b by (simp add: algebra_simps)
    ultimately have "fst p1 = fst p2 + k * (fst q2 - fst p2) \<and>
        snd p1 = snd p2 + k * (snd q2 - snd p2)"
      unfolding zero by simp
    with k have "lies_on p1 p2 q2"
      unfolding lies_on_def by blast
    then show ?thesis
      unfolding touch_at_endpoint_def by blast
  qed
qed

lemma touch_at_endpoint_swap:
  "touch_at_endpoint p2 q2 p1 q1 \<Longrightarrow> touch_at_endpoint p1 q1 p2 q2"
  unfolding touch_at_endpoint_def by blast

lemma side_split:
  assumes x1: "lies_on x p1 q1" and x2: "lies_on x p2 q2"
  shows "cross p1 q1 p2 * cross p1 q1 q2 < 0 \<or>
         (cross p1 q1 p2 = 0 \<and> cross p1 q1 q2 = 0) \<or>
         lies_on p2 p1 q1 \<or> lies_on q2 p1 q1"
proof -
  define v1 where "v1 = cross p1 q1 p2"
  define v2 where "v2 = cross p1 q1 q2"
  from x2 obtain t where t: "0 \<le> t" "t \<le> 1"
    and xt: "fst x = fst p2 + t * (fst q2 - fst p2)" "snd x = snd p2 + t * (snd q2 - snd p2)"
    unfolding lies_on_def by blast
  have sum: "(1 - t) * v1 + t * v2 = 0"
    using cross_affine [OF xt, of p1 q1] lies_on_cross [OF x1]
    unfolding v1_def v2_def by simp
  consider "t = 0" | "t = 1" | "0 < t" "t < 1"
    using t by fastforce
  then have "v1 * v2 < 0 \<or> (v1 = 0 \<and> v2 = 0) \<or> lies_on p2 p1 q1 \<or> lies_on q2 p1 q1"
  proof cases
    case 1
    with xt have "x = p2"
      by (simp add: prod_eq_iff)
    with x1 show ?thesis by blast
  next
    case 2
    with xt have "x = q2"
      by (simp add: prod_eq_iff)
    with x1 show ?thesis by blast
  next
    case 3
    show ?thesis
    proof (cases "v1 = 0")
      case True
      with sum 3 have "v2 = 0"
        by simp
      with True show ?thesis by blast
    next
      case False
      have "(1 - t) * (v1 * v1) + t * (v1 * v2) = v1 * ((1 - t) * v1 + t * v2)"
        by (simp add: algebra_simps)
      then have eq: "t * (v1 * v2) = - ((1 - t) * (v1 * v1))"
        unfolding sum by simp
      have "0 < v1 * v1"
        using False by (auto simp: zero_less_mult_iff)
      then have "0 < (1 - t) * (v1 * v1)"
        using 3 by simp
      then have "t * (v1 * v2) < 0"
        unfolding eq by simp
      then have "v1 * v2 < 0"
        using 3 by (simp add: mult_less_0_iff)
      then show ?thesis by blast
    qed
  qed
  then show ?thesis
    unfolding v1_def v2_def .
qed

lemma common_point_do_intersect:
  assumes ex: "exact_vals p1 q1 p2 q2"
    and x1: "lies_on x p1 q1" and x2: "lies_on x p2 q2"
  shows "do_intersect p1 q1 p2 q2"
proof -
  have e1: "exact_val p1 q1 p2" and e2: "exact_val p1 q1 q2"
    and e3: "exact_val p2 q2 p1" and e4: "exact_val p2 q2 q1"
    using ex unfolding exact_vals_def by simp_all
  from side_split [OF x1 x2]
  have first: "cross p1 q1 p2 * cross p1 q1 q2 < 0 \<or> touch_at_endpoint p1 q1 p2 q2"
    using collinear_touch [OF x1 x2] unfolding touch_at_endpoint_def by blast
  from side_split [OF x2 x1]
  have second: "cross p2 q2 p1 * cross p2 q2 q1 < 0 \<or> touch_at_endpoint p1 q1 p2 q2"
    using collinear_touch [OF x2 x1, THEN touch_at_endpoint_swap]
    unfolding touch_at_endpoint_def by blast
  show ?thesis
  proof (cases "touch_at_endpoint p1 q1 p2 q2")
    case True
    with ex show ?thesis by (rule touch_do_intersect)
  next
    case False
    with first have "orientation p1 q1 p2 \<noteq> orientation p1 q1 q2"
      by (intro orientation_opposite [OF e1 e2]) blast
    moreover from False second have "orientation p2 q2 p1 \<noteq> orientation p2 q2 q1"
      by (intro orientation_opposite [OF e3 e4]) blast
    ultimately show ?thesis
      unfolding do_intersect_iff by blast
  qed
qed

text \<open>
  For points with integer coordinates of magnitude at most \<open>2 ^ 24\<close> every difference,
  product and \<^verbatim>\<open>val\<close> is an integer below \<open>2 ^ 53\<close>, so nothing is rounded.
\<close>

lemma product_bound:
  fixes a b :: int
  assumes "\<bar>a\<bar> \<le> 2 ^ 25" and "\<bar>b\<bar> \<le> 2 ^ 25"
  shows "\<bar>a * b\<bar> \<le> 2 ^ 50"
proof -
  have "\<bar>a\<bar> * \<bar>b\<bar> \<le> 2 ^ 25 * 2 ^ 25"
    using assms by (intro mult_mono) simp_all
  then show ?thesis
    by (simp add: abs_mult)
qed

lemma exact_val_grid:
  assumes "grid_point p" and "grid_point q" and "grid_point r"
  shows "exact_val p q r"
proof -
  from assms(1) obtain px py where p: "p = (of_int px, of_int py)"
    and pb: "\<bar>px\<bar> \<le> 2 ^ 24" "\<bar>py\<bar> \<le> 2 ^ 24"
    unfolding grid_point_def by blast
  from assms(2) obtain qx qy where q: "q = (of_int qx, of_int qy)"
    and qb: "\<bar>qx\<bar> \<le> 2 ^ 24" "\<bar>qy\<bar> \<le> 2 ^ 24"
    unfolding grid_point_def by blast
  from assms(3) obtain rx ry where r: "r = (of_int rx, of_int ry)"
    and rb: "\<bar>rx\<bar> \<le> 2 ^ 24" "\<bar>ry\<bar> \<le> 2 ^ 24"
    unfolding grid_point_def by blast
  define d1 where "d1 = qy - py"
  define d2 where "d2 = rx - qx"
  define d3 where "d3 = qx - px"
  define d4 where "d4 = ry - qy"
  have db: "\<bar>d1\<bar> \<le> 2 ^ 25" "\<bar>d2\<bar> \<le> 2 ^ 25" "\<bar>d3\<bar> \<le> 2 ^ 25" "\<bar>d4\<bar> \<le> 2 ^ 25"
    using pb qb rb unfolding d1_def d2_def d3_def d4_def by simp_all
  have mb: "\<bar>d1 * d2\<bar> \<le> 2 ^ 50" "\<bar>d3 * d4\<bar> \<le> 2 ^ 50"
    by (rule product_bound [OF db(1) db(2)]) (rule product_bound [OF db(3) db(4)])
  have sub: "double_sub (Finite (of_int a)) (Finite (of_int b)) = Finite (of_int (a - b))"
    if "\<bar>a - b\<bar> < 2 ^ 53" for a b :: int
    using round_double_of_int [OF that] by simp
  have mul: "double_mul (Finite (of_int a)) (Finite (of_int b)) = Finite (of_int (a * b))"
    if "\<bar>a * b\<bar> < 2 ^ 53" for a b :: int
    using round_double_of_int [OF that] by simp
  have s1: "double_sub (Finite (of_int qy)) (Finite (of_int py)) = Finite (of_int d1)"
    unfolding d1_def using db(1) by (intro sub) (simp add: d1_def)
  have s2: "double_sub (Finite (of_int rx)) (Finite (of_int qx)) = Finite (of_int d2)"
    unfolding d2_def using db(2) by (intro sub) (simp add: d2_def)
  have s3: "double_sub (Finite (of_int qx)) (Finite (of_int px)) = Finite (of_int d3)"
    unfolding d3_def using db(3) by (intro sub) (simp add: d3_def)
  have s4: "double_sub (Finite (of_int ry)) (Finite (of_int qy)) = Finite (of_int d4)"
    unfolding d4_def using db(4) by (intro sub) (simp add: d4_def)
  have m1: "double_mul (Finite (of_int d1)) (Finite (of_int d2)) = Finite (of_int (d1 * d2))"
    using mb(1) by (intro mul) simp
  have m2: "double_mul (Finite (of_int d3)) (Finite (of_int d4)) = Finite (of_int (d3 * d4))"
    using mb(2) by (intro mul) simp
  have "\<bar>d1 * d2 - d3 * d4\<bar> < 2 ^ 53"
    using mb by simp
  then have s5: "double_sub (Finite (of_int (d1 * d2))) (Finite (of_int (d3 * d4)))
      = Finite (of_int (d1 * d2 - d3 * d4))"
    by (rule sub)
  have "orientation_val p q r = Finite (of_int (d1 * d2 - d3 * d4))"
    unfolding orientation_val_def p q r fst_conv snd_conv s1 s2 s3 s4 m1 m2 s5 ..
  moreover have "cross p q r = of_int (d1 * d2 - d3 * d4)"
    unfolding cross_def p q r d1_def d2_def d3_def d4_def by simp
  ultimately show ?thesis
    unfolding exact_val_def by simp
qed

lemma common_point_grid:
  assumes "grid_point p1" and "grid_point q1" and "grid_point p2" and "grid_point q2"
    and "lies_on x p1 q1" and "lies_on x p2 q2"
  shows "do_intersect p1 q1 p2 q2"
proof -
  have "exact_vals p1 q1 p2 q2"
    unfolding exact_vals_def using assms(1-4) by (simp add: exact_val_grid)
  then show ?thesis
    using assms(5,6) by (rule common_point_do_intersect)
qed

text \<open>
  C3. The claim: do_intersect answers True whenever two segments touch at an endpoint or
  overlap along a common line. The point (0.1, 0.3) is a quarter of the way from (0, 0) to
  (0.4, 1.2), so the segment from (0.1, 0.3) to (0, 1) touches the other with an endpoint;
  the \<^verbatim>\<open>val\<close> of that endpoint is rounded to \<open>- 1 / 2 ^ 54\<close>, not zero, the four
  orientations are 2, 2, 2, 1, and do_intersect returns False.
\<close>

theorem do_intersect_degenerate_counterexample:
  "is_double d_0_1 \<and> is_double d_0_3 \<and> is_double d_0_4 \<and> is_double d_1_2 \<and>
   touch_at_endpoint (0, 0) (d_0_4, d_1_2) (d_0_1, d_0_3) (0, 1) \<and>
   orientation_val (0, 0) (d_0_4, d_1_2) (d_0_1, d_0_3) = Finite (- 1 / 2 ^ 54) \<and>
   \<not> do_intersect (0, 0) (d_0_4, d_1_2) (d_0_1, d_0_3) (0, 1)"
proof -
  have "is_double d_0_1 \<and> is_double d_0_3 \<and> is_double d_0_4 \<and> is_double d_1_2"
    by (simp add: is_double_def d_0_1_def d_0_3_def d_0_4_def d_1_2_def rounding)
  moreover have "lies_on (d_0_1, d_0_3) (0, 0) (d_0_4, d_1_2)"
    unfolding lies_on_def
    by (rule exI [of _ "1 / 4"]) (simp add: d_0_1_def d_0_3_def d_0_4_def d_1_2_def)
  then have "touch_at_endpoint (0, 0) (d_0_4, d_1_2) (d_0_1, d_0_3) (0, 1)"
    unfolding touch_at_endpoint_def by blast
  moreover have "orientation_val (0, 0) (d_0_4, d_1_2) (d_0_1, d_0_3) = Finite (- 1 / 2 ^ 54)"
    by (simp add: orientation_val_def d_0_1_def d_0_3_def d_0_4_def d_1_2_def rounding)
  moreover have "\<not> do_intersect (0, 0) (d_0_4, d_1_2) (d_0_1, d_0_3) (0, 1)"
    by (simp add: evaluation d_0_1_def d_0_3_def d_0_4_def d_1_2_def rounding)
  ultimately show ?thesis
    by blast
qed

text \<open>
  C3, amended. When the four values \<^verbatim>\<open>val\<close> that do_intersect looks at are computed
  exactly, it answers True for degenerate contact as well as for a proper crossing:
  whenever the two segments touch at an endpoint, or overlap along a common line, it
  reports an intersection. (The lemmas before it show more: True for any two segments with
  a common point, and exact values for all integer coordinates up to \<open>2 ^ 24\<close> in magnitude.)
\<close>

theorem do_intersect_degenerate:
  "exact_vals p1 q1 p2 q2
     \<Longrightarrow> touch_at_endpoint p1 q1 p2 q2 \<or> overlap_on_line p1 q1 p2 q2
     \<Longrightarrow> do_intersect p1 q1 p2 q2"
  using touch_do_intersect common_point_do_intersect
  unfolding overlap_on_line_def by blast

theorem do_intersect_degenerate_witness:
  "exact_vals (0, 0) (2, 0) (1, 0) (3, 0) \<and>
   overlap_on_line (0, 0) (2, 0) (1, 0) (3, 0) \<and> do_intersect (0, 0) (2, 0) (1, 0) (3, 0) \<and>
   exact_vals (0, 0) (1, 1) (1, 1) (2, 0) \<and>
   touch_at_endpoint (0, 0) (1, 1) (1, 1) (2, 0) \<and> do_intersect (0, 0) (1, 1) (1, 1) (2, 0)"
proof -
  have ex1: "exact_vals (0, 0) (2, 0) (1, 0) (3, 0)"
    by (simp add: exact_vals_def exact_val_def orientation_val_def cross_def rounding)
  have ex2: "exact_vals (0, 0) (1, 1) (1, 1) (2, 0)"
    by (simp add: exact_vals_def exact_val_def orientation_val_def cross_def rounding)
  have line: "on_common_line (0, 0) (2, 0) (1, 0) (3, 0)"
    unfolding on_common_line_def
    by (intro exI [of _ 0] exI [of _ 1]) simp
  have "lies_on (1, 0) (0, 0) (2, 0)"
    unfolding lies_on_def by (rule exI [of _ "1 / 2"]) simp
  moreover have "lies_on (1, 0) (1, 0) (3, 0)"
    by (rule lies_on_left_end)
  ultimately have over: "overlap_on_line (0, 0) (2, 0) (1, 0) (3, 0)"
    unfolding overlap_on_line_def using line by blast
  have "lies_on (1, 1) (0, 0) (1, 1)"
    unfolding lies_on_def by (rule exI [of _ 1]) simp
  then have touch: "touch_at_endpoint (0, 0) (1, 1) (1, 1) (2, 0)"
    unfolding touch_at_endpoint_def by blast
  show ?thesis
    using ex1 ex2 over touch
      do_intersect_degenerate [of "(0, 0)" "(2, 0)" "(1, 0)" "(3, 0)"]
      do_intersect_degenerate [of "(0, 0)" "(1, 1)" "(1, 1)" "(2, 0)"]
    by blast
qed

end
